theory Spec2Isabelle
  imports Main "HOL-Library.Word" "HOL-Library.Sublist"
begin

unbundle bit_operations_syntax

section \<open>The reactor of the seasocks server (server.cpp) and PageRequest.h\<close>

text \<open>
  The server is a single epoll loop. The model passes the fields of the C++ object
  (\<open>server\<close>) and the outside world (\<open>world\<close>) explicitly. Every system call and every
  call into code that is not part of server.cpp (the Connection class, the runnables)
  is appended to the world's \<open>trace\<close>, so that statements about the order of effects are
  statements about that list. Log output is left out; it has no effect on control flow.
\<close>

subsection \<open>Constants of the platform headers\<close>

text \<open>
  The values of the epoll bits (sys/epoll.h) and of the errno codes (errno.h) are not
  part of the repository. They are parameters of the model.
\<close>

record platform =
  EPOLLIN :: "32 word"
  EPOLLOUT :: "32 word"
  EPOLLHUP :: "32 word"
  EAGAIN :: int
  EWOULDBLOCK :: int
  EINTR :: int

text \<open>The values a Linux system gives these names; used for concrete runs only.\<close>

definition linux :: platform where
  "linux = \<lparr>EPOLLIN = 0x001, EPOLLOUT = 0x004, EPOLLHUP = 0x010,
            EAGAIN = 11, EWOULDBLOCK = 11, EINTR = 4\<rparr>"

subsection \<open>Data\<close>

type_synonym fd = int
type_synonym time_t = int

text \<open>A \<open>Connection*\<close> and a \<open>shared_ptr<Runnable>\<close> are known by their address only.\<close>

type_synonym connection = nat
type_synonym runnable = nat

text \<open>
  \<open>epoll_event.data.ptr\<close>: the server registers \<open>this\<close> for the listening socket,
  \<open>&_pipes[0]\<close> for the wake-up pipe and the \<open>Connection*\<close> for a connection.
\<close>

datatype epoll_data = This | Pipes0 | ConnPtr connection

text \<open>The calls that leave server.cpp, with the arguments the server passes.\<close>

datatype call =
    Socket
  | Bind fd int
  | Listen fd int
  | EpollCreate int
  | Pipe
  | Accept fd
  | SetsockoptLinger fd bool int
  | IoctlFionbio fd
  | SetsockoptReuseaddr fd
  | EpollCtlAdd fd fd "32 word" epoll_data
  | EpollCtlMod fd fd "32 word" epoll_data
  | EpollCtlDel fd fd
  | EpollWait fd
  | ReadPipe fd
  | WritePipe fd
  | Close fd
  | NewConnection connection fd nat
  | DeleteConnection connection
  | RunRunnable runnable
  | HandleDataReadyForWrite connection
  | HandleDataReadyForRead connection

text \<open>\<open>read\<close> returns a byte count, or -1 with an errno.\<close>

datatype read_result = ReadOk nat | ReadFails int

text \<open>\<open>epoll_wait\<close> returns -1 with an errno, or a batch of events.\<close>

datatype poll_result = WaitFails int | WaitEvents "(epoll_data \<times> 32 word) list"

text \<open>
  The world: what the operating system and the classes outside server.cpp answer.
  \<^item> \<open>gettid\<close> is the id of the calling thread, \<open>time_now\<close> what \<open>time(NULL)\<close> returns;
  \<^item> \<open>backlog\<close> holds the connections waiting on the listening socket, as the
    descriptor and peer address \<open>accept\<close> would return for each;
  \<^item> \<open>pipe_reads\<close> is the list of results of the coming reads on the wake-up pipe;
  \<^item> \<open>fails\<close> tells which of the other system calls fail;
  \<^item> \<open>next_fd\<close> is the descriptor the next \<open>socket\<close>, \<open>epoll_create\<close> or \<open>pipe\<close>
    hands out;
  \<^item> \<open>getFd\<close> and \<open>bytesReceived\<close> are the answers of the Connection methods of those
    names, \<open>new_ptr\<close> is the address the next \<open>new Connection\<close> gets;
  \<^item> \<open>run_schedules r\<close> lists the runnables that runnable \<open>r\<close> passes to
    \<open>Server::schedule\<close> while it runs.
\<close>

record world =
  gettid :: int
  time_now :: time_t
  backlog :: "(fd \<times> nat) list"
  pipe_reads :: "read_result list"
  fails :: "call \<Rightarrow> bool"
  next_fd :: fd
  getFd :: "connection \<Rightarrow> fd"
  bytesReceived :: "connection \<Rightarrow> nat"
  new_ptr :: connection
  run_schedules :: "runnable \<Rightarrow> runnable list"
  trace :: "call list"

text \<open>
  The fields of \<open>Server\<close> that the modelled functions use. \<open>connections\<close> is the
  container \<open>_connections\<close> (Connection* to accept time); its declaration is in
  server.h, which is not under src/. It is kept as an association list in key order
  with one entry per key, as an ordered map iterates.
\<close>

record server =
  listenSock :: fd
  epollFd :: fd
  pipes0 :: fd
  pipes1 :: fd
  lameConnectionTimeoutSeconds :: int
  nextDeadConnectionCheck :: time_t
  terminate :: bool
  threadId :: int
  connections :: "(connection \<times> time_t) list"
  pendingRunnables :: "runnable list"

text \<open>\<open>checkThread\<close> throws \<open>std::runtime_error\<close>; the two thread ids are in its message.\<close>

datatype error = WrongThread int int

datatype flow = Proceed | Break

datatype iteration = Continue | Return

subsection \<open>Constructor and setters\<close>

definition EpollTimeoutMillis :: int where
  "EpollTimeoutMillis = 500"

definition DefaultLameConnectionTimeoutSeconds :: int where
  "DefaultLameConnectionTimeoutSeconds = 10"

definition Server :: server where
  "Server = \<lparr>listenSock = -1, epollFd = -1, pipes0 = -1, pipes1 = -1,
     lameConnectionTimeoutSeconds = DefaultLameConnectionTimeoutSeconds,
     nextDeadConnectionCheck = 0, terminate = False, threadId = 0,
     connections = [], pendingRunnables = []\<rparr>"

definition setLameConnectionTimeoutSeconds :: "int \<Rightarrow> server \<Rightarrow> server" where
  "setLameConnectionTimeoutSeconds seconds s = s\<lparr>lameConnectionTimeoutSeconds := seconds\<rparr>"

subsection \<open>System calls\<close>

text \<open>A call is recorded and succeeds unless the world says it fails.\<close>

definition syscall :: "call \<Rightarrow> world \<Rightarrow> bool \<times> world" where
  "syscall c w = (\<not> fails w c, w\<lparr>trace := trace w @ [c]\<rparr>)"

definition invoke :: "call \<Rightarrow> world \<Rightarrow> world" where
  "invoke c w = w\<lparr>trace := trace w @ [c]\<rparr>"

text \<open>
  \<open>accept\<close> on the (non-blocking) listening socket: -1 when nothing waits or the call
  fails, else the first waiting connection, which leaves the backlog.
\<close>

definition accept :: "fd \<Rightarrow> world \<Rightarrow> (fd \<times> nat) \<times> world" where
  "accept lfd w =
     (case backlog w of
        [] \<Rightarrow> ((-1, 0), invoke (Accept lfd) w)
      | (fd, address) # rest \<Rightarrow>
          if fails w (Accept lfd) then ((-1, 0), invoke (Accept lfd) w)
          else ((fd, address), invoke (Accept lfd) (w\<lparr>backlog := rest\<rparr>)))"

text \<open>
  The loop \<open>while (::read(_pipes[0], &dummy, sizeof(dummy)) != -1) {}\<close> over the coming
  read results: the number of reads that succeeded, the errno of the one that failed,
  and the results left. When every listed read succeeds the loop has not returned.
\<close>

fun read_until_error :: "read_result list \<Rightarrow> (nat \<times> int \<times> read_result list) option" where
  "read_until_error [] = None"
| "read_until_error (ReadFails e # rs) = Some (0, e, rs)"
| "read_until_error (ReadOk n # rs) =
     (case read_until_error rs of
        None \<Rightarrow> None
      | Some (k, e, rs') \<Rightarrow> Some (Suc k, e, rs'))"

definition drain :: "fd \<Rightarrow> world \<Rightarrow> (int \<times> world) option" where
  "drain pfd w =
     (case read_until_error (pipe_reads w) of
        None \<Rightarrow> None
      | Some (k, e, rs') \<Rightarrow>
          Some (e, w\<lparr>pipe_reads := rs', trace := trace w @ replicate (Suc k) (ReadPipe pfd)\<rparr>))"

subsection \<open>The connection registry\<close>

definition registry_find :: "connection \<Rightarrow> (connection \<times> time_t) list \<Rightarrow> bool" where
  "registry_find c r = (c \<in> set (map fst r))"

text \<open>\<open>insert\<close> of a map: an entry whose key is present stays as it is.\<close>

fun registry_insert ::
  "connection \<Rightarrow> time_t \<Rightarrow> (connection \<times> time_t) list \<Rightarrow> (connection \<times> time_t) list" where
  "registry_insert c t [] = [(c, t)]"
| "registry_insert c t ((k, v) # r) =
     (if c = k then (k, v) # r
      else if c < k then (c, t) # (k, v) # r
      else (k, v) # registry_insert c t r)"

definition registry_erase :: "connection \<Rightarrow> (connection \<times> time_t) list \<Rightarrow> (connection \<times> time_t) list" where
  "registry_erase c r = filter (\<lambda>(k, v). k \<noteq> c) r"

subsection \<open>makeNonBlocking, configureSocket\<close>

definition makeNonBlocking :: "fd \<Rightarrow> world \<Rightarrow> bool \<times> world" where
  "makeNonBlocking d w = syscall (IoctlFionbio d) w"

definition configureSocket :: "fd \<Rightarrow> world \<Rightarrow> bool \<times> world" where
  "configureSocket d w =
     (case makeNonBlocking d w of
        (ok, w1) \<Rightarrow>
          if \<not> ok then (False, w1)
          else (case syscall (SetsockoptReuseaddr d) w1 of
                  (ok2, w2) \<Rightarrow> if \<not> ok2 then (False, w2) else (True, w2)))"

subsection \<open>checkThread, remove, and the destructor of a connection\<close>

definition checkThread :: "server \<Rightarrow> world \<Rightarrow> error + unit" where
  "checkThread s w =
     (let thisTid = gettid w in
      if thisTid \<noteq> threadId s then Inl (WrongThread thisTid (threadId s)) else Inr ())"

text \<open>
  \<open>Server::remove\<close>, with the server and the world as the call leaves them, also when
  it throws: what was done before an exception stays done.
\<close>

definition remove_steps :: "connection \<Rightarrow> server \<times> world \<Rightarrow> (error + unit) \<times> server \<times> world" where
  "remove_steps c sw =
     (case sw of (s, w) \<Rightarrow>
        (case checkThread s w of
           Inl e \<Rightarrow> (Inl e, s, w)
         | Inr u \<Rightarrow>
             (case syscall (EpollCtlDel (epollFd s) (getFd w c)) w of
                (ok, w1) \<Rightarrow> (Inr (), s\<lparr>connections := registry_erase c (connections s)\<rparr>, w1))))"

text \<open>The call as its callers see it: the exception, or the server and world after it.\<close>

definition remove :: "connection \<Rightarrow> server \<times> world \<Rightarrow> error + server \<times> world" where
  "remove c sw =
     (case remove_steps c sw of
        (Inl e, sw') \<Rightarrow> Inl e
      | (Inr u, sw') \<Rightarrow> Inr sw')"

text \<open>
  Modelled from the spec: the Connection class (connection.h and its implementation)
  is not under src/. The spec's registry "owns the connection object: removal destroys
  it", and the comment in \<open>Server::~Server\<close> says "Deleting the connection closes it and
  removes it from 'this'". So \<open>delete connection\<close> is the destructor's call, recorded as
  \<open>DeleteConnection\<close> (closing the connection's socket is part of it), and the
  destructor's call of \<open>Server::remove\<close>.
\<close>

definition delete_Connection :: "connection \<Rightarrow> server \<times> world \<Rightarrow> error + server \<times> world" where
  "delete_Connection c sw =
     (case sw of (s, w) \<Rightarrow> remove c (s, invoke (DeleteConnection c) w))"

text \<open>
  Modelled from the spec: the constructor of Connection is not under src/. A new
  connection gets a fresh address, holds the socket handle it was given, and its
  bytes-received counter starts at 0.
\<close>

definition new_Connection :: "fd \<Rightarrow> nat \<Rightarrow> world \<Rightarrow> connection \<times> world" where
  "new_Connection d address w =
     (let c = new_ptr w in
      (c, w\<lparr>getFd := (getFd w)(c := d),
             bytesReceived := (bytesReceived w)(c := 0),
             new_ptr := Suc c,
             trace := trace w @ [NewConnection c d address]\<rparr>))"

subsection \<open>handleAccept\<close>

definition handleAccept :: "platform \<Rightarrow> server \<times> world \<Rightarrow> error + server \<times> world" where
  "handleAccept p sw =
     (case sw of (s, w) \<Rightarrow>
      (case accept (listenSock s) w of
         ((d, address), w1) \<Rightarrow>
           if d = -1 then Inr (s, w1)
           else
             (case syscall (SetsockoptLinger d True 500) w1 of
                (ok, w2) \<Rightarrow>
                  if \<not> ok then Inr (s, invoke (Close d) w2)
                  else
                    (case configureSocket d w2 of
                       (ok3, w3) \<Rightarrow>
                         if \<not> ok3 then Inr (s, invoke (Close d) w3)
                         else
                           (case new_Connection d address w3 of
                              (newConnection, w4) \<Rightarrow>
                                (case syscall (EpollCtlAdd (epollFd s) d (EPOLLIN p) (ConnPtr newConnection)) w4 of
                                   (ok5, w5) \<Rightarrow>
                                     if \<not> ok5 then
                                       (case delete_Connection newConnection (s, w5) of
                                          Inl e \<Rightarrow> Inl e
                                        | Inr (s6, w6) \<Rightarrow> Inr (s6, invoke (Close d) w6))
                                     else
                                       Inr (s\<lparr>connections :=
                                                registry_insert newConnection (time_now w5) (connections s)\<rparr>,
                                            w5)))))))"

subsection \<open>subscribeToWriteEvents, unsubscribeFromWriteEvents\<close>

definition subscribeToWriteEvents :: "platform \<Rightarrow> connection \<Rightarrow> server \<times> world \<Rightarrow> bool \<times> world" where
  "subscribeToWriteEvents p c sw =
     (case sw of (s, w) \<Rightarrow>
        syscall (EpollCtlMod (epollFd s) (getFd w c) (EPOLLIN p OR EPOLLOUT p) (ConnPtr c)) w)"

definition unsubscribeFromWriteEvents :: "platform \<Rightarrow> connection \<Rightarrow> server \<times> world \<Rightarrow> bool \<times> world" where
  "unsubscribeFromWriteEvents p c sw =
     (case sw of (s, w) \<Rightarrow>
        syscall (EpollCtlMod (epollFd s) (getFd w c) (EPOLLIN p) (ConnPtr c)) w)"

subsection \<open>The task queue: schedule, popNextRunnable\<close>

definition schedule :: "runnable \<Rightarrow> server \<times> world \<Rightarrow> server \<times> world" where
  "schedule r sw =
     (case sw of (s, w) \<Rightarrow>
        (let s' = s\<lparr>pendingRunnables := pendingRunnables s @ [r]\<rparr> in
         if pipes1 s \<noteq> -1 then (s', snd (syscall (WritePipe (pipes1 s)) w)) else (s', w)))"

definition popNextRunnable :: "server \<Rightarrow> runnable option \<times> server" where
  "popNextRunnable s =
     (case pendingRunnables s of
        [] \<Rightarrow> (None, s)
      | r # rs \<Rightarrow> (Some r, s\<lparr>pendingRunnables := rs\<rparr>))"

definition Server_terminate :: "server \<times> world \<Rightarrow> server \<times> world" where
  "Server_terminate sw =
     (case sw of (s, w) \<Rightarrow> (s\<lparr>terminate := True\<rparr>, snd (syscall (WritePipe (pipes1 s)) w)))"

text \<open>
  \<open>runnable->run()\<close>: the body of a runnable is the embedding program's. Of its
  effects the model keeps the calls of \<open>Server::schedule\<close> it makes.
\<close>

definition run :: "runnable \<Rightarrow> server \<times> world \<Rightarrow> server \<times> world" where
  "run r sw =
     (case sw of (s, w) \<Rightarrow> fold schedule (run_schedules w r) (s, invoke (RunRunnable r) w))"

subsection \<open>processEventQueue\<close>

text \<open>
  The first loop of \<open>processEventQueue\<close>: pop and run until the queue is empty. A
  runnable may schedule runnables, so the loop need not end.
\<close>

partial_function (option) runPending :: "server \<times> world \<Rightarrow> (server \<times> world) option" where
  "runPending sw =
     (case popNextRunnable (fst sw) of
        (None, s') \<Rightarrow> Some (s', snd sw)
      | (Some r, s') \<Rightarrow> runPending (run r (s', snd sw)))"

text \<open>The scan for lame connections: the list \<open>toRemove\<close>.\<close>

definition toRemove :: "server \<Rightarrow> world \<Rightarrow> time_t \<Rightarrow> connection list" where
  "toRemove s w now =
     map fst (filter (\<lambda>(c, since). bytesReceived w c = 0
                        \<and> lameConnectionTimeoutSeconds s \<le> now - since) (connections s))"

fun delete_each :: "connection list \<Rightarrow> server \<times> world \<Rightarrow> error + server \<times> world" where
  "delete_each [] sw = Inr sw"
| "delete_each (c # cs) sw =
     (case delete_Connection c sw of
        Inl e \<Rightarrow> Inl e
      | Inr sw' \<Rightarrow> delete_each cs sw')"

definition reapLameConnections :: "server \<times> world \<Rightarrow> error + server \<times> world" where
  "reapLameConnections sw =
     (case sw of (s, w) \<Rightarrow>
        (let now = time_now w in
         if nextDeadConnectionCheck s \<le> now then delete_each (toRemove s w now) (s, w)
         else Inr (s, w)))"

definition processEventQueue :: "server \<times> world \<Rightarrow> (error + server \<times> world) option" where
  "processEventQueue sw =
     (case runPending sw of
        None \<Rightarrow> None
      | Some sw' \<Rightarrow> Some (reapLameConnections sw'))"

subsection \<open>The loop of serve\<close>

text \<open>The body of the \<open>for\<close> loop over the events of one \<open>epoll_wait\<close>.\<close>

definition dispatch ::
  "platform \<Rightarrow> epoll_data \<times> 32 word \<Rightarrow> server \<times> world \<times> connection list
     \<Rightarrow> (error + flow \<times> server \<times> world \<times> connection list) option" where
  "dispatch p e x =
     (case e of (ptr, events) \<Rightarrow>
      (case x of (s, w, toBeDeleted) \<Rightarrow>
       (case ptr of
          This \<Rightarrow>
            if events AND NOT (EPOLLIN p) \<noteq> 0 then
              Some (Inr (Break, s\<lparr>terminate := True\<rparr>, w, toBeDeleted))
            else if events AND EPOLLIN p \<noteq> 0 then
              (case handleAccept p (s, w) of
                 Inl err \<Rightarrow> Some (Inl err)
               | Inr (s', w') \<Rightarrow> Some (Inr (Proceed, s', w', toBeDeleted)))
            else Some (Inr (Proceed, s, w, toBeDeleted))
        | Pipes0 \<Rightarrow>
            if events AND NOT (EPOLLIN p) \<noteq> 0 then
              Some (Inr (Break, s\<lparr>terminate := True\<rparr>, w, toBeDeleted))
            else
              (case drain (pipes0 s) w of
                 None \<Rightarrow> None
               | Some (errno, w') \<Rightarrow>
                   if errno \<noteq> EAGAIN p \<or> errno \<noteq> EWOULDBLOCK p then
                     Some (Inr (Proceed, s\<lparr>terminate := True\<rparr>, w', toBeDeleted))
                   else Some (Inr (Proceed, s, w', toBeDeleted)))
        | ConnPtr c \<Rightarrow>
            if events AND NOT (EPOLLIN p OR EPOLLOUT p OR EPOLLHUP p) \<noteq> 0 then
              Some (Inr (Proceed, s, w, toBeDeleted @ [c]))
            else if events AND EPOLLHUP p \<noteq> 0 then
              Some (Inr (Proceed, s, w, toBeDeleted @ [c]))
            else
              (let w1 = (if events AND EPOLLOUT p \<noteq> 0 then invoke (HandleDataReadyForWrite c) w else w);
                   w2 = (if events AND EPOLLIN p \<noteq> 0 then invoke (HandleDataReadyForRead c) w1 else w1)
               in Some (Inr (Proceed, s, w2, toBeDeleted))))))"

fun route ::
  "platform \<Rightarrow> (epoll_data \<times> 32 word) list \<Rightarrow> server \<times> world \<times> connection list
     \<Rightarrow> (error + server \<times> world \<times> connection list) option" where
  "route p [] x = Some (Inr x)"
| "route p (e # es) x =
     (case dispatch p e x of
        None \<Rightarrow> None
      | Some (Inl err) \<Rightarrow> Some (Inl err)
      | Some (Inr (Break, x')) \<Rightarrow> Some (Inr x')
      | Some (Inr (Proceed, x')) \<Rightarrow> route p es x')"

text \<open>The loop over \<open>toBeDeleted\<close> that ends an iteration.\<close>

fun deleteQueued :: "connection list \<Rightarrow> server \<times> world \<Rightarrow> error + server \<times> world" where
  "deleteQueued [] sw = Inr sw"
| "deleteQueued (c # cs) sw =
     (if \<not> registry_find c (connections (fst sw)) then Inr ((fst sw)\<lparr>terminate := True\<rparr>, snd sw)
      else (case delete_Connection c sw of
              Inl e \<Rightarrow> Inl e
            | Inr sw' \<Rightarrow> deleteQueued cs sw'))"

text \<open>
  The part of a pass that follows the call of \<open>epoll_wait\<close>, given what the call
  returned: the test of its result, the loop over the events and the loop over
  \<open>toBeDeleted\<close>. \<open>Continue\<close> goes back to the test of \<open>while (!_terminate)\<close>, \<open>Return\<close>
  leaves \<open>serve\<close>.
\<close>

definition after_wait ::
  "platform \<Rightarrow> poll_result \<Rightarrow> server \<times> world \<Rightarrow> (error + iteration \<times> server \<times> world) option" where
  "after_wait p polled sw =
     (case sw of (s1, w2) \<Rightarrow>
        (case polled of
           WaitFails errno \<Rightarrow>
             if errno = EINTR p then Some (Inr (Continue, s1, w2))
             else Some (Inr (Return, s1, w2))
         | WaitEvents events \<Rightarrow>
             (case route p events (s1, w2, []) of
                None \<Rightarrow> None
              | Some (Inl err) \<Rightarrow> Some (Inl err)
              | Some (Inr (s3, w3, toBeDeleted)) \<Rightarrow>
                  (case deleteQueued toBeDeleted (s3, w3) of
                     Inl err \<Rightarrow> Some (Inl err)
                   | Inr sw4 \<Rightarrow> Some (Inr (Continue, sw4))))))"

text \<open>
  One pass through the body of \<open>while (!_terminate)\<close>, given what \<open>epoll_wait\<close> returns
  in it: \<open>processEventQueue\<close>, the call of \<open>epoll_wait\<close>, and the part that follows it.
\<close>

definition serve_iteration ::
  "platform \<Rightarrow> poll_result \<Rightarrow> server \<times> world \<Rightarrow> (error + iteration \<times> server \<times> world) option" where
  "serve_iteration p polled sw =
     (case processEventQueue sw of
        None \<Rightarrow> None
      | Some (Inl err) \<Rightarrow> Some (Inl err)
      | Some (Inr (s1, w1)) \<Rightarrow> after_wait p polled (s1, invoke (EpollWait (epollFd s1)) w1))"

text \<open>
  The loop, over the results of the coming calls of \<open>epoll_wait\<close>. When the list runs
  out before the loop ends, the loop has not returned.
\<close>

fun serve_loop ::
  "platform \<Rightarrow> poll_result list \<Rightarrow> server \<times> world \<Rightarrow> (error + server \<times> world) option" where
  "serve_loop p polls sw =
     (if terminate (fst sw) then Some (Inr sw)
      else (case polls of
              [] \<Rightarrow> None
            | polled # rest \<Rightarrow>
                (case serve_iteration p polled sw of
                   None \<Rightarrow> None
                 | Some (Inl err) \<Rightarrow> Some (Inl err)
                 | Some (Inr (Return, sw')) \<Rightarrow> Some (Inr sw')
                 | Some (Inr (Continue, sw')) \<Rightarrow> serve_loop p rest sw')))"

subsection \<open>serve\<close>

text \<open>\<open>socket\<close> and \<open>epoll_create\<close> return a new descriptor, or -1.\<close>

definition new_descriptor :: "call \<Rightarrow> world \<Rightarrow> fd \<times> world" where
  "new_descriptor c w =
     (if fails w c then (-1, invoke c w)
      else (next_fd w, invoke c (w\<lparr>next_fd := next_fd w + 1\<rparr>)))"

text \<open>\<open>pipe\<close> fills in two new descriptors and returns 0, or leaves them and fails.\<close>

definition pipe :: "server \<Rightarrow> world \<Rightarrow> bool \<times> server \<times> world" where
  "pipe s w =
     (if fails w Pipe then (False, s, invoke Pipe w)
      else (True, s\<lparr>pipes0 := next_fd w, pipes1 := next_fd w + 1\<rparr>,
            invoke Pipe (w\<lparr>next_fd := next_fd w + 2\<rparr>)))"

text \<open>
  The part of \<open>serve\<close> before its loop. It records the calling thread first, then
  creates the listening socket, the epoll descriptor and the pipe and registers the
  listening socket and the read end of the pipe. \<open>False\<close>: a step failed and \<open>serve\<close>
  returns; \<open>True\<close>: the loop follows. (\<open>_staticPath\<close> is not among the modelled fields.)
\<close>

definition serve_setup :: "platform \<Rightarrow> int \<Rightarrow> server \<times> world \<Rightarrow> bool \<times> server \<times> world" where
  "serve_setup p port sw =
     (case sw of (s, w) \<Rightarrow>
      (let s1 = s\<lparr>threadId := gettid w\<rparr> in
       (case new_descriptor Socket w of
          (d, w1) \<Rightarrow>
            (let s2 = s1\<lparr>listenSock := d\<rparr> in
             if d = -1 then (False, s2, w1)
             else
               (case configureSocket d w1 of
                  (ok2, w2) \<Rightarrow>
                    if \<not> ok2 then (False, s2, w2)
                    else
                      (case syscall (Bind d port) w2 of
                         (ok3, w3) \<Rightarrow>
                           if \<not> ok3 then (False, s2, w3)
                           else
                             (case syscall (Listen d 5) w3 of
                                (ok4, w4) \<Rightarrow>
                                  if \<not> ok4 then (False, s2, w4)
                                  else
                                    (case new_descriptor (EpollCreate 10) w4 of
                                       (e, w5) \<Rightarrow>
                                         (let s5 = s2\<lparr>epollFd := e\<rparr> in
                                          if e = -1 then (False, s5, w5)
                                          else
                                            (case pipe s5 w5 of
                                               (ok6, s6, w6) \<Rightarrow>
                                                 if \<not> ok6 then (False, s6, w6)
                                                 else
                                                   (case makeNonBlocking (pipes0 s6) w6 of
                                                      (ok7, w7) \<Rightarrow>
                                                        if \<not> ok7 then (False, s6, w7)
                                                        else
                                                          (case makeNonBlocking (pipes1 s6) w7 of
                                                             (ok8, w8) \<Rightarrow>
                                                               if \<not> ok8 then (False, s6, w8)
                                                               else
                                                                 (case syscall (EpollCtlAdd (epollFd s6) (listenSock s6) (EPOLLIN p) This) w8 of
                                                                    (ok9, w9) \<Rightarrow>
                                                                      if \<not> ok9 then (False, s6, w9)
                                                                      else
                                                                        (case syscall (EpollCtlAdd (epollFd s6) (pipes0 s6) (EPOLLIN p) Pipes0) w9 of
                                                                           (ok10, w10) \<Rightarrow>
                                                                             if \<not> ok10 then (False, s6, w10)
                                                                             else (True, s6, w10)))))))))))))))"

definition serve ::
  "platform \<Rightarrow> int \<Rightarrow> poll_result list \<Rightarrow> server \<times> world \<Rightarrow> (error + server \<times> world) option" where
  "serve p port polls sw =
     (case serve_setup p port sw of
        (ok, sw') \<Rightarrow> if \<not> ok then Some (Inr sw') else serve_loop p polls sw')"

subsection \<open>The destructor of the server\<close>

text \<open>
  \<open>while (!_connections.empty()) delete _connections.begin()->first;\<close> The loop ends
  because deleting a connection takes its entry out of the registry.
\<close>

function destroyConnections :: "server \<times> world \<Rightarrow> error + server \<times> world" where
  "destroyConnections sw =
     (case connections (fst sw) of
        [] \<Rightarrow> Inr sw
      | (c, since) # r \<Rightarrow>
          (case delete_Connection c sw of
             Inl e \<Rightarrow> Inl e
           | Inr sw' \<Rightarrow> destroyConnections sw'))"
  by pat_completeness auto
termination
proof (relation "measure (\<lambda>sw. length (connections (fst sw)))")
  show "wf (measure (\<lambda>sw. length (connections (fst sw))))"
    by simp
next
  fix sw :: "server \<times> world" and x :: "connection \<times> time_t" and r c since sw'
  assume head: "connections (fst sw) = x # r" and x: "(c, since) = x"
    and del: "delete_Connection c sw = Inr sw'"
  from del have "connections (fst sw') = registry_erase c (connections (fst sw))"
    by (auto simp: delete_Connection_def remove_def remove_steps_def checkThread_def syscall_def Let_def
          split: prod.splits sum.splits if_splits)
  with head x have "connections (fst sw') = registry_erase c r"
    by (auto simp: registry_erase_def)
  moreover have "length (registry_erase c r) \<le> length r"
    by (simp add: registry_erase_def)
  ultimately show "(sw', sw) \<in> measure (\<lambda>sw. length (connections (fst sw)))"
    using head by simp
qed

definition closeUnlessMinus1 :: "fd \<Rightarrow> world \<Rightarrow> world" where
  "closeUnlessMinus1 d w = (if d \<noteq> -1 then invoke (Close d) w else w)"

definition Server_destructor :: "server \<times> world \<Rightarrow> error + server \<times> world" where
  "Server_destructor sw =
     (case destroyConnections sw of
        Inl e \<Rightarrow> Inl e
      | Inr (s, w) \<Rightarrow>
          Inr (s, closeUnlessMinus1 (epollFd s)
                    (closeUnlessMinus1 (pipes1 s)
                      (closeUnlessMinus1 (pipes0 s)
                        (closeUnlessMinus1 (listenSock s) w)))))"

subsection \<open>PageRequest\<close>

text \<open>
  Of the fields of \<open>PageRequest\<close>, \<open>_contentLength\<close> and \<open>_content\<close>. The constructor
  takes the content length and no content: \<open>_content\<close> starts empty and is filled by
  \<open>consumeContent\<close>.
\<close>

record PageRequest =
  the_contentLength :: nat
  the_content :: "8 word list"

text \<open>A \<open>const uint8_t*\<close>: null, or the address of an element of \<open>_content\<close>.\<close>

datatype pointer = NULL | ElementOf nat

text \<open>
  \<open>&v[i]\<close>. Subscripting a vector outside its size is undefined: \<open>None\<close>.
\<close>

definition address_of_element :: "'a list \<Rightarrow> nat \<Rightarrow> pointer option" where
  "address_of_element v i = (if i < length v then Some (ElementOf i) else None)"

definition contentLength :: "PageRequest \<Rightarrow> nat" where
  "contentLength r = the_contentLength r"

text \<open>
  \<open>content()\<close>: the indices at which \<open>_content\<close> is subscripted during the call, and the
  pointer returned.
\<close>

definition content :: "PageRequest \<Rightarrow> nat list \<times> pointer option" where
  "content r =
     (if the_contentLength r > 0 then ([0], address_of_element (the_content r) 0)
      else ([], Some NULL))"

text \<open>The bytes a pointer returned by \<open>content()\<close> points to.\<close>

fun bytes_at :: "PageRequest \<Rightarrow> pointer \<Rightarrow> 8 word list" where
  "bytes_at r NULL = []"
| "bytes_at r (ElementOf i) = drop i (the_content r)"

subsection \<open>Reading a trace\<close>

text \<open>The runnables whose \<open>run()\<close> a list of calls holds, in the order of the calls.\<close>

definition runnables_run :: "call list \<Rightarrow> runnable list" where
  "runnables_run calls = concat (map (\<lambda>c. case c of RunRunnable r \<Rightarrow> [r] | _ \<Rightarrow> []) calls)"

text \<open>
  The wake-up writes that \<open>Server::schedule\<close> makes for a list of runnables: one
  write to the pipe for each, when the pipe exists.
\<close>

definition wakes :: "server \<Rightarrow> runnable list \<Rightarrow> call list" where
  "wakes s rs = (if pipes1 s \<noteq> -1 then map (\<lambda>r. WritePipe (pipes1 s)) rs else [])"

text \<open>The calls of running a list of runnables one after the other.\<close>

definition runs :: "server \<Rightarrow> world \<Rightarrow> runnable list \<Rightarrow> call list" where
  "runs s w rs = concat (map (\<lambda>r. RunRunnable r # wakes s (run_schedules w r)) rs)"

text \<open>
  The runnables of a queue \<open>q\<close> by generation: generation 0 is \<open>q\<close> itself, the next
  generation is what the runnables of a generation schedule when they run, in order.
\<close>

fun generation :: "world \<Rightarrow> nat \<Rightarrow> runnable list \<Rightarrow> runnable list" where
  "generation w 0 q = q"
| "generation w (Suc n) q = generation w n (concat (map (run_schedules w) q))"

subsection \<open>A concrete server and world\<close>

text \<open>
  A server as \<open>serve\<close> leaves it when its loop starts (listening socket 3, epoll
  descriptor 4, pipe ends 5 and 6, running on thread 1), and a world in which no call
  fails and nothing is pending. The concrete runs below start from them (fact
  \<open>serve_setup_serving\<close> below: they are what \<open>serve\<close> makes of a new server).
\<close>

definition serving :: server where
  "serving = Server\<lparr>listenSock := 3, epollFd := 4, pipes0 := 5, pipes1 := 6, threadId := 1\<rparr>"

definition quiet :: world where
  "quiet = \<lparr>gettid = 1, time_now = 100, backlog = [], pipe_reads = [],
            fails = (\<lambda>c. False), next_fd = 7, getFd = (\<lambda>c. 0), bytesReceived = (\<lambda>c. 0),
            new_ptr = 0, run_schedules = (\<lambda>r. []), trace = []\<rparr>"

section \<open>Properties\<close>

subsection \<open>Auxiliary facts\<close>

lemma length_registry_insert: "length (registry_insert c t r) \<le> Suc (length r)"
  by (induction r) auto

lemma length_registry_erase: "length (registry_erase c r) \<le> length r"
  by (simp add: registry_erase_def)

text \<open>
  Insertion and erasure keep the registry in strict key order, so it holds one entry
  per connection.
\<close>

lemma set_registry_insert:
  "set (registry_insert c t r) \<subseteq> insert (c, t) (set r)"
  by (induction r) (auto split: if_splits)

lemma registry_insert_ordered:
  assumes "sorted_wrt (<) (map fst r)"
  shows "sorted_wrt (<) (map fst (registry_insert c t r))"
  using assms
proof (induction r)
  case Nil
  then show ?case by simp
next
  case (Cons kv r)
  obtain k v where kv: "kv = (k, v)" by (cases kv)
  from Cons.prems kv have above: "\<forall>x \<in> set (map fst r). k < x" and tail: "sorted_wrt (<) (map fst r)"
    by auto
  show ?case
  proof (cases "c = k \<or> c < k")
    case True
    with Cons.prems kv show ?thesis by auto
  next
    case False
    then have "k < c" by auto
    with above have "\<forall>x \<in> set (map fst (registry_insert c t r)). k < x"
      using set_registry_insert [of c t r] by auto
    with False kv Cons.IH [OF tail] show ?thesis by auto
  qed
qed

lemma registry_erase_ordered:
  assumes "sorted_wrt (<) (map fst r)"
  shows "sorted_wrt (<) (map fst (registry_erase c r))"
  using assms by (induction r) (auto simp: registry_erase_def)

lemma registry_ordered_distinct:
  assumes "sorted_wrt (<) (map fst r)"
  shows "distinct (map fst (r :: (connection \<times> time_t) list))"
  using assms by (simp add: strict_sorted_iff)

lemma read_until_error_script:
  "read_until_error (map ReadOk ns @ ReadFails e # rest) = Some (length ns, e, rest)"
  by (induction ns) simp_all

text \<open>
  When a connection waits and no call fails, \<open>handleAccept\<close> makes exactly these calls,
  in this order, and then inserts the new connection.
\<close>

lemma handleAccept_registers:
  assumes "backlog w = (d, address) # rest" and "d \<noteq> -1"
    and "\<not> fails w (Accept (listenSock s))"
    and "\<not> fails w (SetsockoptLinger d True 500)"
    and "\<not> fails w (IoctlFionbio d)"
    and "\<not> fails w (SetsockoptReuseaddr d)"
    and "\<not> fails w (EpollCtlAdd (epollFd s) d (EPOLLIN p) (ConnPtr (new_ptr w)))"
  shows "\<exists>w'. handleAccept p (s, w)
            = Inr (s\<lparr>connections := registry_insert (new_ptr w) (time_now w) (connections s)\<rparr>, w')
          \<and> trace w' = trace w @
               [Accept (listenSock s), SetsockoptLinger d True 500, IoctlFionbio d,
                SetsockoptReuseaddr d, NewConnection (new_ptr w) d address,
                EpollCtlAdd (epollFd s) d (EPOLLIN p) (ConnPtr (new_ptr w))]
          \<and> backlog w' = rest"
  using assms
  by (simp add: handleAccept_def accept_def syscall_def invoke_def configureSocket_def
        makeNonBlocking_def new_Connection_def Let_def)

text \<open>Whatever happens in it, a call of \<open>handleAccept\<close> that returns has called \<open>accept\<close> once.\<close>

lemma handleAccept_one_accept:
  assumes "handleAccept p (s, w) = Inr (s', w')"
  shows "\<exists>more. trace w' = trace w @ Accept (listenSock s) # more
           \<and> (\<forall>d. Accept d \<notin> set more)
           \<and> (backlog w' = backlog w \<or> backlog w' = tl (backlog w))
           \<and> length (connections s') \<le> Suc (length (connections s))"
  using assms length_registry_insert [of "new_ptr w" "time_now w" "connections s"]
    length_registry_erase [of "new_ptr w" "connections s"]
  by (auto simp: handleAccept_def accept_def syscall_def invoke_def configureSocket_def
        makeNonBlocking_def new_Connection_def delete_Connection_def remove_def remove_steps_def
        checkThread_def Let_def
      split: list.splits prod.splits if_splits sum.splits)

text \<open>Deleting connections on the reactor thread never fails.\<close>

lemma delete_Connection_reactor:
  assumes "gettid w = threadId s"
  shows "delete_Connection c (s, w)
           = Inr (s\<lparr>connections := registry_erase c (connections s)\<rparr>,
                  w\<lparr>trace := trace w @ [DeleteConnection c, EpollCtlDel (epollFd s) (getFd w c)]\<rparr>)"
  using assms by (simp add: delete_Connection_def remove_def remove_steps_def checkThread_def syscall_def invoke_def)

lemma delete_each_reactor:
  assumes "gettid w = threadId s"
  shows "delete_each cs (s, w)
           = Inr (s\<lparr>connections := filter (\<lambda>(k, v). k \<notin> set cs) (connections s)\<rparr>,
                  w\<lparr>trace := trace w @ concat (map (\<lambda>c. [DeleteConnection c, EpollCtlDel (epollFd s) (getFd w c)]) cs)\<rparr>)"
  using assms
proof (induction cs arbitrary: s w)
  case Nil
  then show ?case by simp
next
  case (Cons c cs)
  have "filter (\<lambda>(k, v). k \<notin> set cs) (registry_erase c r)
          = filter (\<lambda>(k, v). k \<notin> set (c # cs)) r" for r :: "(connection \<times> time_t) list"
    by (induction r) (auto simp: registry_erase_def)
  with Cons show ?case
    by (simp add: delete_Connection_reactor)
qed

text \<open>With one entry per key, the scan lists a connection exactly when its own entry is lame.\<close>

lemma toRemove_iff:
  assumes "distinct (map fst (connections s))" and "(c, since) \<in> set (connections s)"
  shows "c \<in> set (toRemove s w now)
           \<longleftrightarrow> bytesReceived w c = 0 \<and> lameConnectionTimeoutSeconds s \<le> now - since"
proof
  assume "c \<in> set (toRemove s w now)"
  then obtain t where t: "(c, t) \<in> set (connections s)"
    and lame: "bytesReceived w c = 0 \<and> lameConnectionTimeoutSeconds s \<le> now - t"
    by (auto simp: toRemove_def)
  from assms t have "t = since"
    by (meson eq_key_imp_eq_value)
  with lame show "bytesReceived w c = 0 \<and> lameConnectionTimeoutSeconds s \<le> now - since"
    by simp
next
  assume "bytesReceived w c = 0 \<and> lameConnectionTimeoutSeconds s \<le> now - since"
  with assms(2) show "c \<in> set (toRemove s w now)"
    by (force simp: toRemove_def)
qed

text \<open>What deleting a connection does when it returns.\<close>

lemma delete_Connection_Inr:
  assumes "delete_Connection c (s, w) = Inr (s', w')"
  shows "s' = s\<lparr>connections := registry_erase c (connections s)\<rparr>
         \<and> w' = w\<lparr>trace := trace w @ [DeleteConnection c, EpollCtlDel (epollFd s) (getFd w c)]\<rparr>
         \<and> gettid w = threadId s"
  using assms
  by (auto simp: delete_Connection_def remove_def remove_steps_def checkThread_def syscall_def invoke_def Let_def
        split: if_splits)

text \<open>The loop of the destructor: what it leaves behind, and that it returns on the reactor thread.\<close>

lemma destroyConnections_Inr:
  assumes "destroyConnections sw = Inr sw'"
  shows "\<exists>calls. fst sw' = (fst sw)\<lparr>connections := []\<rparr>
           \<and> snd sw' = (snd sw)\<lparr>trace := trace (snd sw) @ calls\<rparr>
           \<and> (\<forall>c. registry_find c (connections (fst sw)) \<longrightarrow> DeleteConnection c \<in> set calls)
           \<and> (\<forall>d. Close d \<notin> set calls)"
  using assms
proof (induction sw rule: destroyConnections.induct)
  case (1 sw)
  show ?case
  proof (cases "connections (fst sw)")
    case Nil
    with "1.prems" have "sw' = sw"
      by (simp add: destroyConnections.simps [of sw])
    with Nil show ?thesis
      by (intro exI [of _ "[]"]) (simp add: registry_find_def)
  next
    case (Cons x r)
    obtain c since where x: "x = (c, since)" by (cases x)
    obtain s w where sw: "sw = (s, w)" by (cases sw)
    from "1.prems" Cons x obtain sw1 where del: "delete_Connection c sw = Inr sw1"
      and rest: "destroyConnections sw1 = Inr sw'"
      by (auto simp: destroyConnections.simps [of sw] split: sum.splits)
    obtain s1 w1 where sw1: "sw1 = (s1, w1)" by (cases sw1)
    from del sw sw1 have s1: "s1 = s\<lparr>connections := registry_erase c (connections s)\<rparr>"
      and w1: "w1 = w\<lparr>trace := trace w @ [DeleteConnection c, EpollCtlDel (epollFd s) (getFd w c)]\<rparr>"
      using delete_Connection_Inr [of c s w s1 w1] by simp_all
    from "1.IH" [OF Cons x [symmetric] del rest]
    obtain calls where a: "fst sw' = (fst sw1)\<lparr>connections := []\<rparr>"
      and b: "snd sw' = (snd sw1)\<lparr>trace := trace (snd sw1) @ calls\<rparr>"
      and c: "\<forall>k. registry_find k (connections (fst sw1)) \<longrightarrow> DeleteConnection k \<in> set calls"
      and d: "\<forall>d. Close d \<notin> set calls"
      by blast
    let ?calls = "[DeleteConnection c, EpollCtlDel (epollFd s) (getFd w c)] @ calls"
    have "fst sw' = (fst sw)\<lparr>connections := []\<rparr>"
      using a sw sw1 s1 by simp
    moreover have "snd sw' = (snd sw)\<lparr>trace := trace (snd sw) @ ?calls\<rparr>"
      using b sw sw1 w1 by simp
    moreover have "\<forall>k. registry_find k (connections (fst sw)) \<longrightarrow> DeleteConnection k \<in> set ?calls"
    proof (intro allI impI)
      fix k
      assume k: "registry_find k (connections (fst sw))"
      show "DeleteConnection k \<in> set ?calls"
      proof (cases "k = c")
        case True
        then show ?thesis by simp
      next
        case False
        with k sw sw1 s1 have "registry_find k (connections (fst sw1))"
          by (auto simp: registry_find_def registry_erase_def)
        with c show ?thesis by simp
      qed
    qed
    moreover have "\<forall>d. Close d \<notin> set ?calls"
      using d by simp
    ultimately show ?thesis by blast
  qed
qed

lemma destroyConnections_reactor:
  assumes "gettid (snd sw) = threadId (fst sw)"
  shows "\<exists>sw'. destroyConnections sw = Inr sw'"
  using assms
proof (induction sw rule: destroyConnections.induct)
  case (1 sw)
  show ?case
  proof (cases "connections (fst sw)")
    case Nil
    then show ?thesis by (simp add: destroyConnections.simps [of sw])
  next
    case (Cons x r)
    obtain c since where x: "x = (c, since)" by (cases x)
    obtain s w where sw: "sw = (s, w)" by (cases sw)
    let ?sw1 = "(s\<lparr>connections := registry_erase c (connections s)\<rparr>,
                 w\<lparr>trace := trace w @ [DeleteConnection c, EpollCtlDel (epollFd s) (getFd w c)]\<rparr>)"
    from "1.prems" sw have del: "delete_Connection c sw = Inr ?sw1"
      by (simp add: delete_Connection_reactor)
    from "1.prems" sw have "gettid (snd ?sw1) = threadId (fst ?sw1)"
      by simp
    from "1.IH" [OF Cons x [symmetric] del this]
    obtain sw' where "destroyConnections ?sw1 = Inr sw'" ..
    with Cons x del show ?thesis
      by (simp add: destroyConnections.simps [of sw])
  qed
qed

text \<open>The effect of a runnable, and of the loop that runs the queue.\<close>

lemma runnables_run_append [simp]:
  "runnables_run (xs @ ys) = runnables_run xs @ runnables_run ys"
  by (simp add: runnables_run_def)

lemma runnables_run_Cons_Run [simp]:
  "runnables_run (RunRunnable r # xs) = r # runnables_run xs"
  by (simp add: runnables_run_def)

lemma runnables_run_writes [simp]:
  "runnables_run (map (\<lambda>r. WritePipe d) rs) = []"
  by (induction rs) (simp_all add: runnables_run_def)



lemma runnables_run_Nil [simp]: "runnables_run [] = []"
  by (simp add: runnables_run_def)

lemma runnables_run_wakes [simp]: "runnables_run (wakes s rs) = []"
  by (cases "pipes1 s = -1") (simp_all add: wakes_def runnables_run_def)

lemma runnables_run_runs [simp]: "runnables_run (runs s w rs) = rs"
  by (induction rs) (simp_all add: runs_def)



lemma generation_trace [simp]: "generation (w\<lparr>trace := t\<rparr>) n q = generation w n q"
  by (induction n arbitrary: q) simp_all











text \<open>The set-up of \<open>serve\<close> on a new server, entered on thread 1, gives the concrete server.\<close>

lemma serve_setup_serving:
  "serve_setup linux 8080 (Server, quiet\<lparr>next_fd := 3\<rparr>)
     = (True, serving,
        quiet\<lparr>trace := [Socket, IoctlFionbio 3, SetsockoptReuseaddr 3, Bind 3 8080, Listen 3 5,
                          EpollCreate 10, Pipe, IoctlFionbio 5, IoctlFionbio 6,
                          EpollCtlAdd 4 3 1 This, EpollCtlAdd 4 5 1 Pipes0]\<rparr>)"
  by (simp add: serve_setup_def new_descriptor_def pipe_def configureSocket_def makeNonBlocking_def
        syscall_def invoke_def Let_def serving_def Server_def quiet_def linux_def
        DefaultLameConnectionTimeoutSeconds_def)

subsection \<open>C1: socket options of an accepted connection\<close>

text \<open>
  C1 says that an accepted socket is set non-blocking and gets \<open>SO_LINGER\<close> with a linger
  time of 5 seconds before it is registered with the poller and inserted into the
  registry. The run below accepts the connection on descriptor 7: the order is as
  claimed (linger, non-blocking, then \<open>epoll_ctl\<close> and the insertion), but the value
  passed as \<open>l_linger\<close> is 500, and \<open>l_linger\<close> counts seconds. The source line is
  \<open>linger.l_linger = 500; // 5 seconds\<close>.
\<close>

theorem handleAccept_linger_is_500:
  "\<exists>s' w'. handleAccept linux (serving, quiet\<lparr>backlog := [(7, 1)]\<rparr>) = Inr (s', w')
     \<and> connections s' = [(0, 100)]
     \<and> trace w' = [Accept 3, SetsockoptLinger 7 True 500, IoctlFionbio 7,
                    SetsockoptReuseaddr 7, NewConnection 0 7 1, EpollCtlAdd 4 7 1 (ConnPtr 0)]"
  by (simp add: handleAccept_def accept_def syscall_def invoke_def configureSocket_def
        makeNonBlocking_def new_Connection_def Let_def quiet_def serving_def Server_def
        DefaultLameConnectionTimeoutSeconds_def linux_def)

subsection \<open>C2: draining the wake-up pipe\<close>

text \<open>
  The flag after the drain, for any values of the two errno names: the test in the
  source is \<open>errno != EAGAIN || errno != EWOULDBLOCK\<close>.
\<close>

lemma wake_event_terminate_flag:
  assumes "events AND NOT (EPOLLIN p) = 0"
    and "pipe_reads w = map ReadOk ns @ ReadFails errno # rest"
  shows "\<exists>s' w'. dispatch p (Pipes0, events) (s, w, toBeDeleted) = Some (Inr (Proceed, s', w', toBeDeleted))
           \<and> terminate s' = (terminate s \<or> errno \<noteq> EAGAIN p \<or> errno \<noteq> EWOULDBLOCK p)"
  using assms by (auto simp: dispatch_def drain_def read_until_error_script)

text \<open>
  C2: on a wake-up notification (an event on the pipe with no bit but \<open>EPOLLIN\<close>) the
  reactor reads the pipe until a read fails: with the coming reads \<open>ns\<close> succeeding
  and the next failing with \<open>errno\<close>, it makes \<open>length ns + 1\<close> reads. When that errno
  is the would-block code the server is unchanged, so the terminate flag is not set;
  any other errno sets it. \<open>EAGAIN\<close> and \<open>EWOULDBLOCK\<close> are one value here, as they are
  on Linux, the platform of \<open>epoll\<close>.
\<close>

theorem wake_event_drains_until_would_block:
  assumes "EAGAIN p = EWOULDBLOCK p"
    and "events AND NOT (EPOLLIN p) = 0"
    and "pipe_reads w = map ReadOk ns @ ReadFails errno # rest"
  shows "dispatch p (Pipes0, events) (s, w, toBeDeleted)
           = Some (Inr (Proceed,
                (if errno = EAGAIN p then s else s\<lparr>terminate := True\<rparr>),
                w\<lparr>pipe_reads := rest,
                   trace := trace w @ replicate (length ns + 1) (ReadPipe (pipes0 s))\<rparr>,
                toBeDeleted))"
  using assms by (simp add: dispatch_def drain_def read_until_error_script)

theorem wake_event_drains_until_would_block_witness:
  "EAGAIN linux = EWOULDBLOCK linux
   \<and> (1 :: 32 word) AND NOT (EPOLLIN linux) = 0
   \<and> dispatch linux (Pipes0, 1)
        (serving, quiet\<lparr>pipe_reads := [ReadOk 8, ReadOk 1, ReadFails 11]\<rparr>, [])
       = Some (Inr (Proceed, serving,
            quiet\<lparr>pipe_reads := [], trace := [ReadPipe 5, ReadPipe 5, ReadPipe 5]\<rparr>, []))
   \<and> terminate serving = False"
proof -
  have a: "EAGAIN linux = EWOULDBLOCK linux" by (simp add: linux_def)
  have b: "(1 :: 32 word) AND NOT (EPOLLIN linux) = 0" by (simp add: linux_def)
  have c: "pipe_reads (quiet\<lparr>pipe_reads := [ReadOk 8, ReadOk 1, ReadFails 11]\<rparr>)
             = map ReadOk [8, 1] @ ReadFails 11 # []"
    by simp
  have d: "pipes0 serving = 5" "terminate serving = False" "EAGAIN linux = 11"
    by (simp_all add: serving_def Server_def linux_def)
  have e: "trace quiet = []" by (simp add: quiet_def)
  show ?thesis
    using a b d e wake_event_drains_until_would_block [OF a b c, of serving "[]"]
    by (simp add: numeral_eq_Suc)
qed

subsection \<open>C3: one accept per readiness event\<close>

text \<open>
  C3 as stated says that a readable listening socket is accepted from in a loop until
  \<open>accept\<close> would block, so that no connection stays pending. It does not hold:
  \<open>handleAccept\<close> calls \<open>accept\<close> once. With two connections waiting, the iteration
  that sees the listening socket readable accepts the first and leaves the second.
\<close>

theorem accept_loop_counterexample:
  "\<exists>s' w'. serve_iteration linux (WaitEvents [(This, EPOLLIN linux)])
              (serving, quiet\<lparr>backlog := [(7, 1), (8, 2)]\<rparr>) = Some (Inr (Continue, s', w'))
     \<and> backlog w' = [(8, 2)]
     \<and> connections s' = [(0, 100)]
     \<and> trace w' = [EpollWait 4, Accept 3, SetsockoptLinger 7 True 500, IoctlFionbio 7,
                    SetsockoptReuseaddr 7, NewConnection 0 7 1, EpollCtlAdd 4 7 1 (ConnPtr 0)]"
  by (simp add: serve_iteration_def after_wait_def processEventQueue_def runPending.simps popNextRunnable_def
        reapLameConnections_def toRemove_def dispatch_def
        handleAccept_def accept_def syscall_def invoke_def configureSocket_def
        makeNonBlocking_def new_Connection_def Let_def quiet_def serving_def Server_def
        DefaultLameConnectionTimeoutSeconds_def linux_def)

text \<open>
  C3, amended: when the listening socket is reported readable (and nothing else), the
  reactor calls \<open>accept\<close> exactly once for that event. At most one waiting connection
  leaves the backlog and the registry grows by at most one entry; the connections
  still waiting are left for later events.
\<close>

theorem listening_event_accepts_once:
  assumes "events AND NOT (EPOLLIN p) = 0"
    and "events AND EPOLLIN p \<noteq> 0"
    and "dispatch p (This, events) (s, w, toBeDeleted) = Some (Inr (f, s', w', toBeDeleted'))"
  shows "\<exists>more. trace w' = trace w @ Accept (listenSock s) # more
           \<and> (\<forall>d. Accept d \<notin> set more)
           \<and> (backlog w' = backlog w \<or> backlog w' = tl (backlog w))
           \<and> length (connections s') \<le> Suc (length (connections s))"
proof -
  from assms have "handleAccept p (s, w) = Inr (s', w')"
    by (auto simp: dispatch_def split: sum.splits)
  then show ?thesis by (rule handleAccept_one_accept)
qed

theorem listening_event_accepts_once_witness:
  "(1 :: 32 word) AND NOT (EPOLLIN linux) = 0
   \<and> (1 :: 32 word) AND EPOLLIN linux \<noteq> 0
   \<and> (\<exists>s' w'. dispatch linux (This, 1) (serving, quiet\<lparr>backlog := [(7, 1), (8, 2)]\<rparr>, [])
                 = Some (Inr (Proceed, s', w', []))
        \<and> (\<exists>more. trace w' = trace (quiet\<lparr>backlog := [(7, 1), (8, 2)]\<rparr>) @ Accept (listenSock serving) # more
              \<and> (\<forall>d. Accept d \<notin> set more)
              \<and> backlog w' = [(8, 2)]
              \<and> length (connections s') \<le> Suc (length (connections serving))))"
proof -
  have a: "(1 :: 32 word) AND NOT (EPOLLIN linux) = 0" by (simp add: linux_def)
  have b: "(1 :: 32 word) AND EPOLLIN linux \<noteq> 0" by (simp add: linux_def)
  obtain s' w' where run:
      "dispatch linux (This, 1) (serving, quiet\<lparr>backlog := [(7, 1), (8, 2)]\<rparr>, [])
         = Some (Inr (Proceed, s', w', []))"
    and left: "backlog w' = [(8, 2)]"
    by (simp add: dispatch_def handleAccept_def accept_def syscall_def invoke_def
          configureSocket_def makeNonBlocking_def new_Connection_def Let_def quiet_def
          serving_def Server_def DefaultLameConnectionTimeoutSeconds_def linux_def)
  from listening_event_accepts_once [OF a b run] left a b run show ?thesis
    by auto
qed

subsection \<open>C4: the thread check\<close>

text \<open>
  C4 as stated says that both mutating operations of the registry, the insertion on
  accept and the removal, check the calling thread against the recorded one and fail
  when they differ. \<open>handleAccept\<close> has no such check: called on thread 99 for a
  server that recorded thread 1, it inserts the connection and returns. The recorded
  and the calling thread also come to differ in a run: \<open>serve\<close> records its calling
  thread on entry, so when \<open>serve\<close> is entered on thread 99 for the server whose loop
  runs on thread 1, that loop goes on with 99 recorded. Its next \<open>handleAccept\<close>, on
  thread 1, inserts the connection, where \<open>remove\<close> on the same thread throws.
\<close>

theorem accept_without_thread_check:
  "gettid (quiet\<lparr>gettid := 99, backlog := [(7, 1)]\<rparr>) \<noteq> threadId serving
   \<and> (\<exists>s' w'. handleAccept linux (serving, quiet\<lparr>gettid := 99, backlog := [(7, 1)]\<rparr>) = Inr (s', w')
          \<and> connections serving = []
          \<and> connections s' = [(0, 100)])
   \<and> (\<exists>s2 w2 s3 w3. serve_setup linux 8081 (serving, quiet\<lparr>gettid := 99\<rparr>) = (True, s2, w2)
          \<and> threadId s2 = 99
          \<and> handleAccept linux (s2, w2\<lparr>gettid := 1, backlog := [(11, 1)]\<rparr>) = Inr (s3, w3)
          \<and> connections s3 = [(0, 100)]
          \<and> remove 0 (s3, w3) = Inl (WrongThread 1 99))"
  by (simp add: serve_setup_def new_descriptor_def pipe_def
        handleAccept_def accept_def syscall_def invoke_def configureSocket_def
        makeNonBlocking_def new_Connection_def remove_def remove_steps_def checkThread_def
        Let_def quiet_def serving_def Server_def
        DefaultLameConnectionTimeoutSeconds_def linux_def)

text \<open>
  C4, amended: the removal (\<open>Server::remove\<close>) checks the calling thread against the
  recorded reactor thread before anything else. On another thread it throws and
  leaves the server and the world as they were: no call to the poller has been made
  and the registry is untouched. On the reactor thread it takes the connection out of
  the poller and out of the registry. The insertion on accept makes no thread check:
  when a connection waits and no call fails it inserts, whatever the calling thread.
\<close>

theorem remove_checks_thread:
  "(gettid w \<noteq> threadId s \<longrightarrow>
        remove_steps c (s, w) = (Inl (WrongThread (gettid w) (threadId s)), s, w)
        \<and> remove c (s, w) = Inl (WrongThread (gettid w) (threadId s)))
   \<and> (gettid w = threadId s \<longrightarrow>
        remove_steps c (s, w)
          = (Inr (), s\<lparr>connections := registry_erase c (connections s)\<rparr>,
             w\<lparr>trace := trace w @ [EpollCtlDel (epollFd s) (getFd w c)]\<rparr>)
        \<and> remove c (s, w)
          = Inr (s\<lparr>connections := registry_erase c (connections s)\<rparr>,
                 w\<lparr>trace := trace w @ [EpollCtlDel (epollFd s) (getFd w c)]\<rparr>)
        \<and> \<not> registry_find c (registry_erase c (connections s)))
   \<and> (backlog w = (d, address) # rest \<and> d \<noteq> -1 \<and> (\<forall>x. \<not> fails w x) \<longrightarrow>
        (\<exists>w'. handleAccept p (s, w)
           = Inr (s\<lparr>connections := registry_insert (new_ptr w) (time_now w) (connections s)\<rparr>, w')))"
proof (intro conjI impI)
  assume "gettid w \<noteq> threadId s"
  then show "remove_steps c (s, w) = (Inl (WrongThread (gettid w) (threadId s)), s, w)"
    and "remove c (s, w) = Inl (WrongThread (gettid w) (threadId s))"
    by (simp_all add: remove_def remove_steps_def checkThread_def)
next
  assume "gettid w = threadId s"
  then show "remove_steps c (s, w)
          = (Inr (), s\<lparr>connections := registry_erase c (connections s)\<rparr>,
             w\<lparr>trace := trace w @ [EpollCtlDel (epollFd s) (getFd w c)]\<rparr>)"
    and "remove c (s, w)
          = Inr (s\<lparr>connections := registry_erase c (connections s)\<rparr>,
                 w\<lparr>trace := trace w @ [EpollCtlDel (epollFd s) (getFd w c)]\<rparr>)"
    by (simp_all add: remove_def remove_steps_def checkThread_def syscall_def)
next
  show "\<not> registry_find c (registry_erase c (connections s))"
    by (auto simp: registry_find_def registry_erase_def)
next
  assume "backlog w = (d, address) # rest \<and> d \<noteq> -1 \<and> (\<forall>x. \<not> fails w x)"
  then show "\<exists>w'. handleAccept p (s, w)
           = Inr (s\<lparr>connections := registry_insert (new_ptr w) (time_now w) (connections s)\<rparr>, w')"
    using handleAccept_registers [of w d address rest s p] by auto
qed

theorem remove_checks_thread_witness:
  "remove_steps 0 (serving\<lparr>connections := [(0, 100)]\<rparr>, quiet\<lparr>gettid := 99\<rparr>)
       = (Inl (WrongThread 99 1), serving\<lparr>connections := [(0, 100)]\<rparr>, quiet\<lparr>gettid := 99\<rparr>)
   \<and> remove 0 (serving\<lparr>connections := [(0, 100)]\<rparr>, quiet\<lparr>gettid := 99\<rparr>) = Inl (WrongThread 99 1)
   \<and> remove 0 (serving\<lparr>connections := [(0, 100)]\<rparr>, quiet)
       = Inr (serving\<lparr>connections := []\<rparr>, quiet\<lparr>trace := [EpollCtlDel 4 0]\<rparr>)
   \<and> (\<exists>w'. handleAccept linux (serving, quiet\<lparr>gettid := 99, backlog := [(7, 1)]\<rparr>)
         = Inr (serving\<lparr>connections := [(0, 100)]\<rparr>, w'))"
  using remove_checks_thread [of "quiet\<lparr>gettid := 99\<rparr>" "serving\<lparr>connections := [(0, 100)]\<rparr>" 0 7 1 "[]" linux]
    remove_checks_thread [of quiet "serving\<lparr>connections := [(0, 100)]\<rparr>" 0 7 1 "[]" linux]
    remove_checks_thread [of "quiet\<lparr>gettid := 99, backlog := [(7, 1)]\<rparr>" serving 0 7 1 "[]" linux]
  by (simp add: quiet_def serving_def Server_def registry_erase_def)

subsection \<open>C5: the scan for lame connections\<close>

text \<open>
  C5: when the scan runs (the clock has reached \<open>_nextDeadConnectionCheck\<close>) on the
  reactor thread, a connection of the registry is destroyed exactly when its
  bytes-received counter is 0 and its age, now minus the accept time, is at least the
  lame-connection timeout; so a connection that has received a byte is not reaped and
  stays in the registry. The timeout is 10 in a new server and is what
  \<open>setLameConnectionTimeoutSeconds\<close> was given after that. The registry holds one
  entry per connection, as a map does.
\<close>

theorem reaper_destroys_exactly_the_lame:
  assumes "nextDeadConnectionCheck s \<le> time_now w"
    and "gettid w = threadId s"
    and "distinct (map fst (connections s))"
    and "(c, since) \<in> set (connections s)"
  shows "(\<exists>s' w' calls. reapLameConnections (s, w) = Inr (s', w')
           \<and> trace w' = trace w @ calls
           \<and> (DeleteConnection c \<in> set calls
                \<longleftrightarrow> bytesReceived w c = 0 \<and> lameConnectionTimeoutSeconds s \<le> time_now w - since)
           \<and> (registry_find c (connections s')
                \<longleftrightarrow> \<not> (bytesReceived w c = 0 \<and> lameConnectionTimeoutSeconds s \<le> time_now w - since))
           \<and> (0 < bytesReceived w c \<longrightarrow> DeleteConnection c \<notin> set calls \<and> registry_find c (connections s')))
         \<and> lameConnectionTimeoutSeconds Server = 10
         \<and> lameConnectionTimeoutSeconds (setLameConnectionTimeoutSeconds seconds s) = seconds"
proof -
  let ?cs = "toRemove s w (time_now w)"
  let ?calls = "concat (map (\<lambda>c. [DeleteConnection c, EpollCtlDel (epollFd s) (getFd w c)]) ?cs)"
  have run: "reapLameConnections (s, w)
      = Inr (s\<lparr>connections := filter (\<lambda>(k, v). k \<notin> set ?cs) (connections s)\<rparr>,
             w\<lparr>trace := trace w @ ?calls\<rparr>)"
    using assms(1,2) by (simp add: reapLameConnections_def delete_each_reactor Let_def)
  have lame: "c \<in> set ?cs
      \<longleftrightarrow> bytesReceived w c = 0 \<and> lameConnectionTimeoutSeconds s \<le> time_now w - since"
    using assms(3,4) by (rule toRemove_iff)
  have del: "DeleteConnection c \<in> set ?calls \<longleftrightarrow> c \<in> set ?cs"
    by auto
  have kept: "registry_find c (filter (\<lambda>(k, v). k \<notin> set ?cs) (connections s)) \<longleftrightarrow> c \<notin> set ?cs"
    using assms(4) by (force simp: registry_find_def)
  have scan: "\<exists>s' w' calls. reapLameConnections (s, w) = Inr (s', w')
           \<and> trace w' = trace w @ calls
           \<and> (DeleteConnection c \<in> set calls
                \<longleftrightarrow> bytesReceived w c = 0 \<and> lameConnectionTimeoutSeconds s \<le> time_now w - since)
           \<and> (registry_find c (connections s')
                \<longleftrightarrow> \<not> (bytesReceived w c = 0 \<and> lameConnectionTimeoutSeconds s \<le> time_now w - since))
           \<and> (0 < bytesReceived w c \<longrightarrow> DeleteConnection c \<notin> set calls \<and> registry_find c (connections s'))"
    using run lame del kept
    by (intro exI [of _ "s\<lparr>connections := filter (\<lambda>(k, v). k \<notin> set ?cs) (connections s)\<rparr>"]
          exI [of _ "w\<lparr>trace := trace w @ ?calls\<rparr>"] exI [of _ ?calls]) simp
  have "lameConnectionTimeoutSeconds Server = 10"
    by (simp add: Server_def DefaultLameConnectionTimeoutSeconds_def)
  moreover have "lameConnectionTimeoutSeconds (setLameConnectionTimeoutSeconds seconds s) = seconds"
    by (simp add: setLameConnectionTimeoutSeconds_def)
  ultimately show ?thesis using scan by blast
qed

text \<open>
  A run at time 100 with the default timeout: connection 1, accepted at 85 with no
  byte received, is destroyed; connection 2, as old but with 3 bytes received, and
  connection 3, accepted at 95 with no byte received, stay.
\<close>

theorem reaper_destroys_exactly_the_lame_witness:
  "nextDeadConnectionCheck (serving\<lparr>connections := [(1, 85), (2, 85), (3, 95)]\<rparr>)
      \<le> time_now (quiet\<lparr>bytesReceived := (\<lambda>c. if c = 2 then 3 else 0)\<rparr>)
   \<and> gettid (quiet\<lparr>bytesReceived := (\<lambda>c. if c = 2 then 3 else 0)\<rparr>)
       = threadId (serving\<lparr>connections := [(1, 85), (2, 85), (3, 95)]\<rparr>)
   \<and> distinct (map fst (connections (serving\<lparr>connections := [(1, 85), (2, 85), (3, 95)]\<rparr>)))
   \<and> (\<exists>s' w'. reapLameConnections (serving\<lparr>connections := [(1, 85), (2, 85), (3, 95)]\<rparr>,
                   quiet\<lparr>bytesReceived := (\<lambda>c. if c = 2 then 3 else 0)\<rparr>) = Inr (s', w')
         \<and> trace w' = [DeleteConnection 1, EpollCtlDel 4 0]
         \<and> connections s' = [(2, 85), (3, 95)])"
proof -
  let ?s = "serving\<lparr>connections := [(1, 85), (2, 85), (3, 95)]\<rparr>"
  let ?w = "quiet\<lparr>bytesReceived := (\<lambda>c. if c = 2 then 3 else 0)\<rparr>"
  have a: "nextDeadConnectionCheck ?s \<le> time_now ?w"
    by (simp add: serving_def Server_def quiet_def)
  have b: "gettid ?w = threadId ?s"
    by (simp add: serving_def Server_def quiet_def)
  have c: "distinct (map fst (connections ?s))" by simp
  have d: "(1, 85) \<in> set (connections ?s)" by simp
  have e: "\<exists>s' w'. reapLameConnections (?s, ?w) = Inr (s', w')
         \<and> trace w' = [DeleteConnection 1, EpollCtlDel 4 0]
         \<and> connections s' = [(2, 85), (3, 95)]"
    by (simp add: reapLameConnections_def toRemove_def delete_Connection_def remove_def remove_steps_def
          checkThread_def syscall_def invoke_def registry_erase_def Let_def
          serving_def Server_def DefaultLameConnectionTimeoutSeconds_def quiet_def)
  from reaper_destroys_exactly_the_lame [OF a b c d] a b c e show ?thesis
    by blast
qed

subsection \<open>C6: runnables run before the poll wait\<close>




subsection \<open>C7: writable before readable\<close>

text \<open>
  C7: for an event on a connection whose mask has both the readable and the writable
  bit, no hang-up bit and no bit outside readable, writable and hang-up, the reactor
  calls the connection's \<open>handleDataReadyForWrite\<close> first and its
  \<open>handleDataReadyForRead\<close> second, and does nothing else.
\<close>

theorem writable_before_readable:
  assumes "events AND NOT (EPOLLIN p OR EPOLLOUT p OR EPOLLHUP p) = 0"
    and "events AND EPOLLHUP p = 0"
    and "events AND EPOLLOUT p \<noteq> 0"
    and "events AND EPOLLIN p \<noteq> 0"
  shows "dispatch p (ConnPtr c, events) (s, w, toBeDeleted)
           = Some (Inr (Proceed, s,
                w\<lparr>trace := trace w @ [HandleDataReadyForWrite c, HandleDataReadyForRead c]\<rparr>,
                toBeDeleted))"
  using assms by (simp add: dispatch_def invoke_def)

theorem writable_before_readable_witness:
  "(5 :: 32 word) AND NOT (EPOLLIN linux OR EPOLLOUT linux OR EPOLLHUP linux) = 0
   \<and> (5 :: 32 word) AND EPOLLHUP linux = 0
   \<and> (5 :: 32 word) AND EPOLLOUT linux \<noteq> 0
   \<and> (5 :: 32 word) AND EPOLLIN linux \<noteq> 0
   \<and> dispatch linux (ConnPtr 7, 5) (serving, quiet, [])
        = Some (Inr (Proceed, serving,
             quiet\<lparr>trace := [HandleDataReadyForWrite 7, HandleDataReadyForRead 7]\<rparr>, []))"
proof -
  have a: "(5 :: 32 word) AND NOT (EPOLLIN linux OR EPOLLOUT linux OR EPOLLHUP linux) = 0"
    by (simp add: linux_def)
  have b: "(5 :: 32 word) AND EPOLLHUP linux = 0" by (simp add: linux_def)
  have c: "(5 :: 32 word) AND EPOLLOUT linux \<noteq> 0" by (simp add: linux_def)
  have d: "(5 :: 32 word) AND EPOLLIN linux \<noteq> 0" by (simp add: linux_def)
  have e: "trace quiet = []" by (simp add: quiet_def)
  show ?thesis using a b c d e writable_before_readable [OF a b c d, of 7 serving quiet "[]"]
    by simp
qed

subsection \<open>C8: shutdown\<close>

text \<open>
  C8: the destructor of the server first deletes every connection of the registry and
  only then closes the listening socket, the two pipe ends and the epoll descriptor
  (those that are not -1), in that order. When the destructor returns, its calls are
  the deletions, with no \<open>close\<close> among them and one for each connection that was in
  the registry, followed by the closes, and the registry is empty. It returns when it
  runs on the reactor thread or the registry is empty.
\<close>

theorem connections_destroyed_before_close:
  "((gettid w = threadId s \<or> connections s = []) \<longrightarrow> (\<exists>s' w'. Server_destructor (s, w) = Inr (s', w')))
   \<and> (\<forall>s' w'. Server_destructor (s, w) = Inr (s', w') \<longrightarrow>
        (\<exists>calls. trace w' = trace w @ calls
                     @ map Close (filter (\<lambda>d. d \<noteq> -1) [listenSock s, pipes0 s, pipes1 s, epollFd s])
           \<and> (\<forall>c. registry_find c (connections s) \<longrightarrow> DeleteConnection c \<in> set calls)
           \<and> (\<forall>d. Close d \<notin> set calls)
           \<and> connections s' = []))"
proof (intro conjI impI allI)
  assume "gettid w = threadId s \<or> connections s = []"
  then have "\<exists>sw'. destroyConnections (s, w) = Inr sw'"
  proof
    assume "gettid w = threadId s"
    then show ?thesis using destroyConnections_reactor [of "(s, w)"] by simp
  next
    assume "connections s = []"
    then show ?thesis by (simp add: destroyConnections.simps [of "(s, w)"])
  qed
  then show "\<exists>s' w'. Server_destructor (s, w) = Inr (s', w')"
    by (auto simp: Server_destructor_def)
next
  fix s' w'
  assume run: "Server_destructor (s, w) = Inr (s', w')"
  then obtain s1 w1 where loop: "destroyConnections (s, w) = Inr (s1, w1)"
    and s': "s' = s1"
    and w': "w' = closeUnlessMinus1 (epollFd s1) (closeUnlessMinus1 (pipes1 s1)
                    (closeUnlessMinus1 (pipes0 s1) (closeUnlessMinus1 (listenSock s1) w1)))"
    by (auto simp: Server_destructor_def split: sum.splits)
  from destroyConnections_Inr [OF loop]
  obtain calls where a: "s1 = s\<lparr>connections := []\<rparr>"
    and b: "w1 = w\<lparr>trace := trace w @ calls\<rparr>"
    and c: "\<forall>c. registry_find c (connections s) \<longrightarrow> DeleteConnection c \<in> set calls"
    and d: "\<forall>d. Close d \<notin> set calls"
    by auto
  have "trace w' = trace w @ calls
          @ map Close (filter (\<lambda>d. d \<noteq> -1) [listenSock s, pipes0 s, pipes1 s, epollFd s])"
    using w' a b by (simp add: closeUnlessMinus1_def invoke_def)
  with a c d s'
  show "\<exists>calls. trace w' = trace w @ calls
                     @ map Close (filter (\<lambda>d. d \<noteq> -1) [listenSock s, pipes0 s, pipes1 s, epollFd s])
           \<and> (\<forall>c. registry_find c (connections s) \<longrightarrow> DeleteConnection c \<in> set calls)
           \<and> (\<forall>d. Close d \<notin> set calls)
           \<and> connections s' = []"
    by auto
qed

theorem connections_destroyed_before_close_witness:
  "gettid (quiet\<lparr>getFd := (\<lambda>c. 10 + int c)\<rparr>) = threadId (serving\<lparr>connections := [(1, 85), (2, 90)]\<rparr>)
   \<and> (\<exists>s' w'. Server_destructor (serving\<lparr>connections := [(1, 85), (2, 90)]\<rparr>,
                                   quiet\<lparr>getFd := (\<lambda>c. 10 + int c)\<rparr>) = Inr (s', w')
         \<and> trace w' = [DeleteConnection 1, EpollCtlDel 4 11, DeleteConnection 2, EpollCtlDel 4 12,
                        Close 3, Close 5, Close 6, Close 4]
         \<and> connections s' = [])"
proof -
  let ?s = "serving\<lparr>connections := [(1, 85), (2, 90)]\<rparr>"
  let ?w = "quiet\<lparr>getFd := (\<lambda>c. 10 + int c)\<rparr>"
  have a: "gettid ?w = threadId ?s"
    by (simp add: quiet_def serving_def Server_def)
  with connections_destroyed_before_close [of ?w ?s]
  obtain s' w' where run: "Server_destructor (?s, ?w) = Inr (s', w')"
    by blast
  have "Server_destructor (?s, ?w)
          = Inr (?s\<lparr>connections := []\<rparr>,
                 ?w\<lparr>trace := [DeleteConnection 1, EpollCtlDel 4 11, DeleteConnection 2, EpollCtlDel 4 12,
                               Close 3, Close 5, Close 6, Close 4]\<rparr>)"
    by (simp add: Server_destructor_def destroyConnections.simps delete_Connection_def remove_def remove_steps_def
          checkThread_def syscall_def invoke_def registry_erase_def closeUnlessMinus1_def
          serving_def Server_def DefaultLameConnectionTimeoutSeconds_def quiet_def)
  with run a show ?thesis by auto
qed

subsection \<open>C9: the masks of the write subscription\<close>

text \<open>
  C9: \<open>subscribeToWriteEvents\<close> and \<open>unsubscribeFromWriteEvents\<close> each make one call,
  an \<open>epoll_ctl\<close> modification for the connection's descriptor, with the mask
  \<open>EPOLLIN | EPOLLOUT\<close> and \<open>EPOLLIN\<close>. Both masks contain the bits of \<open>EPOLLIN\<close>, so
  neither call takes read interest away.
\<close>

theorem write_subscription_keeps_read_interest:
  "subscribeToWriteEvents p c (s, w)
     = (\<not> fails w (EpollCtlMod (epollFd s) (getFd w c) (EPOLLIN p OR EPOLLOUT p) (ConnPtr c)),
        w\<lparr>trace := trace w @ [EpollCtlMod (epollFd s) (getFd w c) (EPOLLIN p OR EPOLLOUT p) (ConnPtr c)]\<rparr>)
   \<and> (EPOLLIN p OR EPOLLOUT p) AND EPOLLIN p = EPOLLIN p
   \<and> unsubscribeFromWriteEvents p c (s, w)
     = (\<not> fails w (EpollCtlMod (epollFd s) (getFd w c) (EPOLLIN p) (ConnPtr c)),
        w\<lparr>trace := trace w @ [EpollCtlMod (epollFd s) (getFd w c) (EPOLLIN p) (ConnPtr c)]\<rparr>)
   \<and> EPOLLIN p AND EPOLLIN p = EPOLLIN p"
  by (simp add: subscribeToWriteEvents_def unsubscribeFromWriteEvents_def syscall_def
        word_bw_comms word_ao_absorbs)

subsection \<open>C10: the content pointer of a PageRequest\<close>

text \<open>
  C10 as stated says that for every \<open>PageRequest\<close> whose content length is not 0,
  \<open>content()\<close> returns a pointer to the body bytes. A request built with content
  length 5 whose body has not been consumed yet has an empty \<open>_content\<close>; there
  \<open>&_content[0]\<close> subscripts an empty vector and no pointer to body bytes comes back.
\<close>

theorem content_before_body_counterexample:
  "contentLength \<lparr>the_contentLength = 5, the_content = []\<rparr> \<noteq> 0
   \<and> content \<lparr>the_contentLength = 5, the_content = []\<rparr> = ([0], None)"
  by (simp add: contentLength_def content_def address_of_element_def)

text \<open>
  C10, amended: \<open>content()\<close> returns NULL when \<open>contentLength()\<close> is 0, and in that
  case does not subscript the content vector. When \<open>contentLength()\<close> is not 0 it
  returns \<open>&_content[0]\<close>: for a vector that is not empty (the body has been consumed)
  that is the address of its first element, which is not NULL and points to the body
  bytes; for an empty vector the subscript is undefined.
\<close>

theorem content_null_iff_no_body:
  "(contentLength r = 0 \<longrightarrow> content r = ([], Some NULL))
   \<and> (contentLength r \<noteq> 0 \<longrightarrow> content r = ([0], address_of_element (the_content r) 0))
   \<and> (contentLength r \<noteq> 0 \<and> the_content r \<noteq> [] \<longrightarrow>
        snd (content r) = Some (ElementOf 0) \<and> ElementOf 0 \<noteq> NULL
        \<and> bytes_at r (ElementOf 0) = the_content r)
   \<and> (contentLength r \<noteq> 0 \<and> the_content r = [] \<longrightarrow> snd (content r) = None)"
  by (simp add: contentLength_def content_def address_of_element_def)

theorem content_null_iff_no_body_witness:
  "content \<lparr>the_contentLength = 0, the_content = []\<rparr> = ([], Some NULL)
   \<and> content \<lparr>the_contentLength = 2, the_content = [104, 105]\<rparr> = ([0], Some (ElementOf 0))
   \<and> bytes_at \<lparr>the_contentLength = 2, the_content = [104, 105]\<rparr> (ElementOf 0) = [104, 105]"
  using content_null_iff_no_body [of "\<lparr>the_contentLength = 0, the_content = []\<rparr>"]
    content_null_iff_no_body [of "\<lparr>the_contentLength = 2, the_content = [104, 105]\<rparr>"]
  by (simp add: contentLength_def address_of_element_def prod_eq_iff)

end
